theory Spec2Isabelle
  imports Complex_Main "HOL-Library.AList"
begin

section \<open>Data model\<close>

text \<open>
  The server of \<^verbatim>\<open>src/backend/main.py\<close> keeps all of its state outside the process:
  the persona file \<^verbatim>\<open>./config/persona.json\<close>, the other files it reads and writes
  (uploaded images, cached audio, the speaker sample), the Chroma collection and the
  \<^verbatim>\<open>turns\<close> table. The model threads one record holding that state through every
  function, and returns raised exceptions as values.

  Python strings are \<open>string\<close>; file contents are byte strings, also written as
  \<open>string\<close>. The persona file holds a JSON object from keys to strings (it is only ever
  written by \<^verbatim>\<open>json.dump\<close> of such a dict); a dict is an association list in insertion
  order, read with \<open>map_of\<close> and assigned with \<open>AList.update\<close>, which replaces the value
  of a present key in place and appends an absent one, as Python's dict does.
\<close>

datatype exn = KeyError string | FileNotFoundError string | Raised string

text \<open>\<^verbatim>\<open>str(e)\<close>, as the handlers of the source use it for the detail of a response.\<close>

fun str_of_exn :: "exn \<Rightarrow> string" where
  "str_of_exn (KeyError k) = [CHR 0x27] @ k @ [CHR 0x27]"
| "str_of_exn (FileNotFoundError p) = p"
| "str_of_exn (Raised m) = m"

datatype http_error = HTTPException nat string

type_synonym persona = "(string \<times> string) list"

record item =
  item_id :: nat
  document :: string
  metadata :: "(string \<times> string option) list"

record turn =
  turn_id :: nat
  timestamp :: nat
  user_msg :: string
  bot_res :: string
  lat :: real
  lon :: real
  modality :: string

record world =
  config_file :: "persona option"
  config_writes :: nat
  files :: "string \<Rightarrow> string option"
  collection :: "item list"
  next_uuid :: nat
  turns :: "turn list"
  last_rowid :: nat
  clock :: nat
  engine_calls :: nat

subsection \<open>Persona management\<close>

definition default_persona :: persona where
  "default_persona =
     [(''deceased_name'', ''loved one's name''),
      (''user_name'', ''your name''),
      (''user_nickname'', ''ac3''),
      (''relationship'', ''Father''),
      (''date_of_death'', ''June 22, 2023''),
      (''personality_traits'', ''Warm, wise, philosophical.''),
      (''philosophy'',
         ''The Double-You Book: Balancing Spirit (Intellect) and Will (Emotion) through the Heart.''),
      (''achievements'', ''Retired LA County Firefighter, Air Force Veteran.''),
      (''dimension'', ''heaven'')]"

definition defaults :: persona where
  "defaults =
     [(''deceased_name'', ''Subject Name''),
      (''user_name'', ''User''),
      (''user_nickname'', ''User''),
      (''relationship'', ''Friend''),
      (''date_of_death'', ''2023''),
      (''personality_traits'', ''Kind, wise.''),
      (''philosophy'', ''Stoicism''),
      (''achievements'', []),
      (''dimension'', ''heaven'')]"

definition save_persona_config :: "persona \<Rightarrow> world \<Rightarrow> world" where
  "save_persona_config data w =
     w\<lparr>config_file := Some data, config_writes := config_writes w + 1\<rparr>"

text \<open>
  The loop \<^verbatim>\<open>for k, v in defaults.items()\<close> of \<^verbatim>\<open>load_persona_config\<close>, carrying
  \<^verbatim>\<open>data\<close> and \<^verbatim>\<open>needs_save\<close>.
\<close>

fun backfill :: "(string \<times> string) list \<Rightarrow> persona \<Rightarrow> bool \<Rightarrow> persona \<times> bool" where
  "backfill [] data needs_save = (data, needs_save)"
| "backfill ((k, v) # kvs) data needs_save =
     (if map_of data k = None then backfill kvs (AList.update k v data) True
      else backfill kvs data needs_save)"

text \<open>
  \<^verbatim>\<open>load_persona_config\<close>: a first start writes the default persona; then the file is
  read, missing keys are filled in, and the result is saved when anything was filled in.
\<close>

definition load_persona_config :: "world \<Rightarrow> persona \<times> world" where
  "load_persona_config w =
     (let w1 = (case config_file w of
                  None \<Rightarrow> w\<lparr>config_file := Some default_persona,
                              config_writes := config_writes w + 1\<rparr>
                | Some _ \<Rightarrow> w);
          data0 = (case config_file w of None \<Rightarrow> default_persona | Some d \<Rightarrow> d);
          (data, needs_save) = backfill defaults data0 False
      in (data, if needs_save then save_persona_config data w1 else w1))"

subsection \<open>External capabilities\<close>

text \<open>
  The embedding model, the language model, the speech engine, the parsers of uploaded
  documents, the text splitter and the digest are libraries outside the repository. The
  environment gives what each of them computes, and for each call that can fail the
  exception it raises, if any. A row of \<^verbatim>\<open>csv.DictReader\<close> maps a column name to its
  field, or to \<^verbatim>\<open>None\<close> where the line is shorter than the header.
\<close>

type_synonym row = "(string \<times> string option) list"
type_synonym tensor = "real list"

record env =
  distance :: "string \<Rightarrow> string \<Rightarrow> nat"
  search_fault :: "exn option"
  get_fault :: "exn option"
  delete_fault :: "exn option"
  add_fault :: "exn option"
  insert_fault :: "exn option"
  ollama_generate :: "string \<Rightarrow> string list \<Rightarrow> exn + string"
  ollama_stream :: "string \<Rightarrow> exn + (string list \<times> exn option)"
  voice_engine :: "(string \<Rightarrow> string option \<Rightarrow> exn + tensor) option"
  wav_bytes :: "tensor \<Rightarrow> exn + string"
  md5_hexdigest :: "string \<Rightarrow> string"
  split_text :: "string \<Rightarrow> exn + string list"
  csv_rows :: "string \<Rightarrow> exn + row list"
  pdf_pages :: "string \<Rightarrow> exn + string list"
  utf8_decode :: "string \<Rightarrow> exn + string"

subsection \<open>Strings, files and the clock\<close>

text \<open>
  \<^verbatim>\<open>str.strip()\<close> removes the white space of \<^verbatim>\<open>str.isspace\<close> at both ends; of the
  characters a \<open>char\<close> can hold these are 9 to 13, 28 to 32, 133 and 160.
\<close>

definition isspace :: "char \<Rightarrow> bool" where
  "isspace c = ((of_char c :: nat) \<in> {9, 10, 11, 12, 13, 28, 29, 30, 31, 32, 133, 160})"

definition strip :: "string \<Rightarrow> string" where
  "strip s = rev (dropWhile isspace (rev (dropWhile isspace s)))"

text \<open>\<^verbatim>\<open>sep.join(xs)\<close>.\<close>

fun join :: "string \<Rightarrow> string list \<Rightarrow> string" where
  "join sep [] = []"
| "join sep [x] = x"
| "join sep (x # y # ys) = x @ sep @ join sep (y # ys)"

text \<open>
  An f-string over the persona: its literal pieces and the subscripts \<^verbatim>\<open>p['key']\<close>,
  evaluated from left to right; a missing key raises \<^verbatim>\<open>KeyError\<close>.
\<close>

datatype piece = Lit string | Sub string

fun fstring :: "persona \<Rightarrow> piece list \<Rightarrow> exn + string" where
  "fstring p [] = Inr []"
| "fstring p (Lit s # ps) =
     (case fstring p ps of Inl e \<Rightarrow> Inl e | Inr r \<Rightarrow> Inr (s @ r))"
| "fstring p (Sub k # ps) =
     (case map_of p k of
        None \<Rightarrow> Inl (KeyError k)
      | Some v \<Rightarrow> (case fstring p ps of Inl e \<Rightarrow> Inl e | Inr r \<Rightarrow> Inr (v @ r)))"

definition open_read :: "world \<Rightarrow> string \<Rightarrow> exn + string" where
  "open_read w path =
     (case files w path of None \<Rightarrow> Inl (FileNotFoundError path) | Some b \<Rightarrow> Inr b)"


text \<open>
  Time is logical: the clock counts the events that passed, and advances by one when
  it is read and when a fragment is handed to the client.
\<close>

definition now :: "world \<Rightarrow> nat \<times> world" where
  "now w = (clock w, w\<lparr>clock := clock w + 1\<rparr>)"

subsection \<open>The knowledge store and the turns table\<close>

text \<open>
  Modelled from the spec: the Chroma collection behind \<^verbatim>\<open>vector_db\<close> is an external
  vector index; the spec describes it as a store of items with an id, a document and
  metadata, offering similarity search and bulk get and delete filtered by the type
  tag. The collection is the list of its items in insertion order; ids are fresh
  numbers; a call that raises leaves the collection as it was; a search returns the
  \<open>k\<close> items nearest to the query, ties in insertion order.
\<close>

definition has_type :: "string \<Rightarrow> item \<Rightarrow> bool" where
  "has_type t i = (map_of (metadata i) ''type'' = Some (Some t))"

definition collection_get :: "env \<Rightarrow> string \<Rightarrow> world \<Rightarrow> exn + nat list" where
  "collection_get env t w =
     (case get_fault env of
        Some e \<Rightarrow> Inl e
      | None \<Rightarrow> Inr (map item_id (filter (has_type t) (collection w))))"

definition collection_delete :: "env \<Rightarrow> nat list \<Rightarrow> world \<Rightarrow> exn + world" where
  "collection_delete env ids w =
     (case delete_fault env of
        Some e \<Rightarrow> Inl e
      | None \<Rightarrow> Inr (w\<lparr>collection := filter (\<lambda>i. item_id i \<notin> set ids) (collection w)\<rparr>))"

fun new_items :: "nat \<Rightarrow> string list \<Rightarrow> (string \<times> string option) list list \<Rightarrow> item list" where
  "new_items n (t # ts) (m # ms) =
     \<lparr>item_id = n, document = t, metadata = m\<rparr> # new_items (Suc n) ts ms"
| "new_items n _ _ = []"

definition add_texts ::
  "env \<Rightarrow> string list \<Rightarrow> (string \<times> string option) list list \<Rightarrow> world \<Rightarrow> exn + world" where
  "add_texts env texts metadatas w =
     (case add_fault env of
        Some e \<Rightarrow> Inl e
      | None \<Rightarrow>
          Inr (w\<lparr>collection := collection w @ new_items (next_uuid w) texts metadatas,
                 next_uuid := next_uuid w + length texts\<rparr>))"

definition similarity_search :: "env \<Rightarrow> string \<Rightarrow> nat \<Rightarrow> world \<Rightarrow> exn + string list" where
  "similarity_search env query k w =
     (case search_fault env of
        Some e \<Rightarrow> Inl e
      | None \<Rightarrow>
          Inr (map document
                 (take k (sort_key (\<lambda>i. distance env query (document i)) (collection w)))))"

text \<open>
  \<^verbatim>\<open>INSERT INTO turns\<close>, with its commit: the table is the list of its rows in insertion
  order, and \<^verbatim>\<open>AUTOINCREMENT\<close> gives the row the successor of the last id used.
\<close>

definition insert_turn ::
  "env \<Rightarrow> nat \<Rightarrow> string \<Rightarrow> string \<Rightarrow> real \<Rightarrow> real \<Rightarrow> string \<Rightarrow> world \<Rightarrow> exn + world" where
  "insert_turn env ts um br la lo ty w =
     (case insert_fault env of
        Some e \<Rightarrow> Inl e
      | None \<Rightarrow>
          Inr (w\<lparr>turns := turns w @
                   [\<lparr>turn_id = last_rowid w + 1, timestamp = ts, user_msg = um,
                     bot_res = br, lat = la, lon = lo, modality = ty\<rparr>],
                 last_rowid := last_rowid w + 1\<rparr>))"

subsection \<open>Ingestion\<close>

text \<open>\<^verbatim>\<open>row.get(k)\<close>, \<^verbatim>\<open>row.get(k, d)\<close>, and Python's \<^verbatim>\<open>or\<close> on optional strings.\<close>

definition row_get :: "row \<Rightarrow> string \<Rightarrow> string option" where
  "row_get r k = (case map_of r k of None \<Rightarrow> None | Some v \<Rightarrow> v)"

definition row_get_default :: "row \<Rightarrow> string \<Rightarrow> string \<Rightarrow> string option" where
  "row_get_default r k d = (case map_of r k of None \<Rightarrow> Some d | Some v \<Rightarrow> v)"

definition truthy :: "string option \<Rightarrow> bool" where
  "truthy x = (case x of None \<Rightarrow> False | Some s \<Rightarrow> s \<noteq> [])"

definition py_or :: "string option \<Rightarrow> string option \<Rightarrow> string option" where
  "py_or a b = (if truthy a then a else b)"

text \<open>
  The text of a row: the first of the columns \<^verbatim>\<open>text_chunk\<close>, \<^verbatim>\<open>text\<close> and \<^verbatim>\<open>fact\<close>
  that holds a non-empty string. A row is usable when it has one.
\<close>

definition row_text :: "row \<Rightarrow> string option" where
  "row_text r = py_or (py_or (row_get r ''text_chunk'') (row_get r ''text'')) (row_get r ''fact'')"

definition usable :: "row \<Rightarrow> bool" where
  "usable r = truthy (row_text r)"

text \<open>The body of the loop over the rows of \<^verbatim>\<open>process_csv_ingestion\<close>.\<close>

fun read_rows ::
  "row list \<Rightarrow> string list \<Rightarrow> (string \<times> string option) list list
     \<Rightarrow> string list \<times> (string \<times> string option) list list" where
  "read_rows [] documents metadatas = (documents, metadatas)"
| "read_rows (r # rs) documents metadatas =
     (let text = row_text r;
          year = row_get_default r ''year'' ''Unknown''
      in case text of
           None \<Rightarrow> read_rows rs documents metadatas
         | Some t \<Rightarrow>
             if t \<noteq> [] then
               read_rows rs (documents @ [''passage: '' @ t])
                 (metadatas @ [[(''source'', Some ''upload''), (''type'', Some ''fact''),
                                (''year'', year), (''raw_text'', Some t)]])
             else read_rows rs documents metadatas)"

text \<open>
  The inner \<^verbatim>\<open>try\<close> of both ingestions: look the items of the partition up and delete
  them; the bare \<^verbatim>\<open>except: pass\<close> swallows whatever either call raises.
\<close>

definition clear_existing :: "env \<Rightarrow> string \<Rightarrow> world \<Rightarrow> world" where
  "clear_existing env t w =
     (case collection_get env t w of
        Inl e \<Rightarrow> w
      | Inr ids \<Rightarrow>
          if ids \<noteq> [] then
            (case collection_delete env ids w of Inl e \<Rightarrow> w | Inr w' \<Rightarrow> w')
          else w)"

definition process_csv_ingestion :: "env \<Rightarrow> string \<Rightarrow> world \<Rightarrow> int \<times> world" where
  "process_csv_ingestion env file_path w =
     (case (case open_read w file_path of Inl e \<Rightarrow> Inl e | Inr b \<Rightarrow> csv_rows env b) of
        Inl e \<Rightarrow> (- 1, w)
      | Inr rows \<Rightarrow>
          (let (documents, metadatas) = read_rows rows [] [] in
           if documents \<noteq> [] then
             (let w1 = clear_existing env ''fact'' w in
              case add_texts env documents metadatas w1 of
                Inl e \<Rightarrow> (- 1, w1)
              | Inr w2 \<Rightarrow> (int (length documents), w2))
           else (0, w)))"

definition extract_text :: "env \<Rightarrow> string \<Rightarrow> bool \<Rightarrow> world \<Rightarrow> exn + string" where
  "extract_text env file_path is_pdf w =
     (case open_read w file_path of
        Inl e \<Rightarrow> Inl e
      | Inr b \<Rightarrow>
          if is_pdf then
            (case pdf_pages env b of Inl e \<Rightarrow> Inl e | Inr pages \<Rightarrow> Inr (concat pages))
          else utf8_decode env b)"

definition process_philosophy_ingestion ::
  "env \<Rightarrow> string \<Rightarrow> bool \<Rightarrow> world \<Rightarrow> int \<times> world" where
  "process_philosophy_ingestion env file_path is_pdf w =
     (case extract_text env file_path is_pdf w of
        Inl e \<Rightarrow> (- 1, w)
      | Inr full_text \<Rightarrow>
          if strip full_text = [] then (- 2, w)
          else
            (case split_text env full_text of
               Inl e \<Rightarrow> (- 1, w)
             | Inr chunks \<Rightarrow>
                 if chunks \<noteq> [] then
                   (let w1 = clear_existing env ''philosophy'' w;
                        documents = map (\<lambda>c. ''passage: '' @ c) chunks;
                        metadatas = map (\<lambda>_. [(''source'', Some ''upload''),
                                                (''type'', Some ''philosophy'')]) chunks
                    in case add_texts env documents metadatas w1 of
                         Inl e \<Rightarrow> (- 1, w1)
                       | Inr w2 \<Rightarrow> (int (length chunks), w2))
                 else (0, w)))"

subsection \<open>Chat turns\<close>

definition system_prompt_template :: "piece list" where
  "system_prompt_template =
     [Lit ''\<newline>ROLE: You are the digital persona of '', Sub ''deceased_name'',
      Lit ''.\<newline>RELATIONSHIP: You are the '', Sub ''relationship'',
      Lit '' to '', Sub ''user_name'',
      Lit '' (nickname: '', Sub ''user_nickname'',
      Lit '').\<newline>TONE: '', Sub ''personality_traits'',
      Lit ''\<newline>PHILOSOPHY: '', Sub ''philosophy'',
      Lit ''\<newline>ACHIEVEMENTS: '', Sub ''achievements'',
      Lit ''\<newline>CURRENT STATE: You passed away in '', Sub ''date_of_death'',
      Lit '' and are speaking from '', Sub ''dimension'',
      Lit (''.\<newline>\<newline>INSTRUCTIONS:\<newline>'' @
           ''1. Speak exclusively in the FIRST PERSON (\"I\").\<newline>'' @
           ''2. Convert any memories provided in the context from \"You\" to \"I\".\<newline>'' @
           ''3. Keep responses concise, warm, and conversational.\<newline>'' @
           ''4. Do not act like an AI assistant. You are the person described above.\<newline>'')]"

definition build_dynamic_system_prompt :: "world \<Rightarrow> (exn + string) \<times> world" where
  "build_dynamic_system_prompt w =
     (let (p, w1) = load_persona_config w in (fstring p system_prompt_template, w1))"

text \<open>
  \<^verbatim>\<open>generate_stream\<close> of \<^verbatim>\<open>chat_text\<close> is a generator: its body runs only while the
  consumer asks for the next fragment, from the start or from the \<^verbatim>\<open>yield\<close> where it
  is suspended up to the next \<^verbatim>\<open>yield\<close>, the end of the body, or an exception. A
  suspended generator holds the rest of the model's stream (its chunks, and the exception
  that ends it, if one does) and \<^verbatim>\<open>full_response\<close>.
\<close>

datatype gen = Created | Suspended "string list" "exn option" string | Finished

datatype resumed = Yielded string | StopIteration | Thrown exn

text \<open>Steps 1 to 3 of the body, up to the creation of the stream.\<close>

definition start_stream ::
  "env \<Rightarrow> string \<Rightarrow> world \<Rightarrow> (exn + (string list \<times> exn option)) \<times> world" where
  "start_stream env message w =
     (case similarity_search env message 3 w of
        Inl e \<Rightarrow> (Inl e, w)
      | Inr results \<Rightarrow>
          (let context = join ''\<newline>'' results;
               (sp, w1) = build_dynamic_system_prompt w
           in case sp of
                Inl e \<Rightarrow> (Inl e, w1)
              | Inr system_prompt \<Rightarrow>
                  (let full_prompt =
                         system_prompt @ ''\<newline>\<newline>MEMORY CONTEXT:\<newline>'' @ context
                         @ ''\<newline>\<newline>USER: '' @ message @ ''\<newline>YOU:''
                   in (ollama_stream env full_prompt, w1))))"

text \<open>
  The loop over the stream and step 4: the next chunk is added to \<^verbatim>\<open>full_response\<close>
  and yielded; when the stream has ended the time is read and the turn is inserted.
\<close>

definition stream_loop ::
  "env \<Rightarrow> string \<Rightarrow> real \<Rightarrow> real \<Rightarrow> string list \<Rightarrow> exn option \<Rightarrow> string \<Rightarrow> world
     \<Rightarrow> resumed \<times> gen \<times> world" where
  "stream_loop env message la lo chunks ending full_response w =
     (case chunks of
        token # rest \<Rightarrow> (Yielded token, Suspended rest ending (full_response @ token), w)
      | [] \<Rightarrow>
          (case ending of
             Some e \<Rightarrow> (Thrown e, Finished, w)
           | None \<Rightarrow>
               (let (ts, w1) = now w in
                case insert_turn env ts message full_response la lo ''text'' w1 of
                  Inl e \<Rightarrow> (Thrown e, Finished, w1)
                | Inr w2 \<Rightarrow> (StopIteration, Finished, w2))))"

definition gen_next ::
  "env \<Rightarrow> string \<Rightarrow> real \<Rightarrow> real \<Rightarrow> gen \<Rightarrow> world \<Rightarrow> resumed \<times> gen \<times> world" where
  "gen_next env message la lo g w =
     (case g of
        Created \<Rightarrow>
          (case start_stream env message w of
             (Inl e, w1) \<Rightarrow> (Thrown e, Finished, w1)
           | (Inr (chunks, ending), w1) \<Rightarrow> stream_loop env message la lo chunks ending [] w1)
      | Suspended chunks ending full_response \<Rightarrow>
          stream_loop env message la lo chunks ending full_response w
      | Finished \<Rightarrow> (StopIteration, Finished, w))"

text \<open>
  The streaming response drives the generator for the client: each fragment is sent,
  stamped here with the time of its emission, before the next one is asked for. The
  source does nothing about a client that disconnects: the loop over the stream of the
  model is synchronous, and the response keeps asking the generator for fragments until
  its body has ended. The client receives the first \<open>n\<close> fragments and is gone then;
  a fragment yielded after that is sent to no one.
\<close>

datatype outcome = Completed | Failed exn

function stream_response ::
  "env \<Rightarrow> string \<Rightarrow> real \<Rightarrow> real \<Rightarrow> nat \<Rightarrow> gen \<Rightarrow> world
     \<Rightarrow> (nat \<times> string) list \<times> outcome \<times> world" where
  "stream_response env message la lo n g w =
     (case gen_next env message la lo g w of
        (Yielded token, g', w1) \<Rightarrow>
          (let (sent, r, w2) =
                 stream_response env message la lo (n - 1) g' (w1\<lparr>clock := clock w1 + 1\<rparr>)
           in (if 0 < n then (clock w1, token) # sent else sent, r, w2))
      | (StopIteration, g', w1) \<Rightarrow> ([], Completed, w1)
      | (Thrown e, g', w1) \<Rightarrow> ([], Failed e, w1))"
  by pat_completeness auto
termination
  apply (relation "measures
    [\<lambda>(env, message, la, lo, n, g, w). if g = Created then 1 else 0,
     \<lambda>(env, message, la, lo, n, g, w).
        case g of Suspended chunks ending full_response \<Rightarrow> length chunks | _ \<Rightarrow> 0]")
   apply simp
  apply (auto simp: gen_next_def stream_loop_def Let_def
      split: gen.splits sum.splits list.splits option.splits prod.splits)
  done

declare stream_response.simps [simp del]

definition chat_text ::
  "env \<Rightarrow> string \<Rightarrow> real \<Rightarrow> real \<Rightarrow> nat \<Rightarrow> world \<Rightarrow> (nat \<times> string) list \<times> outcome \<times> world" where
  "chat_text env message la lo n w = stream_response env message la lo n Created w"



subsection \<open>Voice synthesis\<close>

definition VOICE_CACHE_PATH :: string where
  "VOICE_CACHE_PATH = ''./voice_cache''"

definition SPEAKER_WAV :: string where
  "SPEAKER_WAV = ''../VoiceCloning/voice_samples/AC2_22050_Hz_16_bit_7s.wav''"

definition get_voice_cache_path :: "env \<Rightarrow> string \<Rightarrow> string" where
  "get_voice_cache_path env text = VOICE_CACHE_PATH @ ''/'' @ md5_hexdigest env text @ ''.wav''"

text \<open>
  \<^verbatim>\<open>generate_voice\<close>. The response of a hit and of a miss is the file at the cache path,
  given here by its bytes. \<open>wav_bytes\<close> stands for the conversion of the engine's
  tensor to 16-bit samples and their encoding, which are floating-point computations of
  libraries; the state counts the calls of the engine.
\<close>

definition generate_voice :: "env \<Rightarrow> string \<Rightarrow> world \<Rightarrow> (http_error + string) \<times> world" where
  "generate_voice env text w =
     (case voice_engine env of
        None \<Rightarrow> (Inl (HTTPException 503 ''Voice engine not loaded.''), w)
      | Some engine \<Rightarrow>
          if text = [] \<or> strip text = [] then
            (Inl (HTTPException 400 ''Text parameter cannot be empty.''), w)
          else
            (let cache_path = get_voice_cache_path env text in
             case files w cache_path of
               Some audio \<Rightarrow> (Inr audio, w)
             | None \<Rightarrow>
                 (let w1 = w\<lparr>engine_calls := engine_calls w + 1\<rparr> in
                  case engine text (if files w SPEAKER_WAV \<noteq> None then Some SPEAKER_WAV
                                    else None) of
                    Inl e \<Rightarrow> (Inl (HTTPException 500 (str_of_exn e)), w1)
                  | Inr wav \<Rightarrow>
                      (case wav_bytes env wav of
                         Inl e \<Rightarrow> (Inl (HTTPException 500 (str_of_exn e)), w1)
                       | Inr audio \<Rightarrow>
                           (Inr audio, w1\<lparr>files := (files w1)(cache_path \<mapsto> audio)\<rparr>)))))"

subsection \<open>Export of the history\<close>

record eval_entry =
  messages :: "(string \<times> string) list"
  meta_turn_id :: nat
  meta_timestamp :: nat
  meta_location :: "real \<times> real"

definition system_messages :: "eval_entry \<Rightarrow> string list" where
  "system_messages e = map snd (filter (\<lambda>m. fst m = ''system'') (messages e))"

text \<open>
  \<^verbatim>\<open>export_research_json\<close>: the rows in the order of their time stamps, one entry for
  each (\<open>entry_of\<close> is the body of the loop), under the system prompt made of the
  persona's \<^verbatim>\<open>deceased_name\<close>.
\<close>

definition entry_of :: "string \<Rightarrow> turn \<Rightarrow> eval_entry" where
  "entry_of system_prompt r =
     \<lparr>messages = [(''system'', system_prompt), (''user'', user_msg r),
                  (''assistant'', bot_res r)],
      meta_turn_id = turn_id r, meta_timestamp = timestamp r,
      meta_location = (lat r, lon r)\<rparr>"

definition export_research_json :: "world \<Rightarrow> (exn + eval_entry list) \<times> world" where
  "export_research_json w =
     (let rows = sort_key timestamp (turns w);
          (p, w1) = load_persona_config w
      in case fstring p [Lit ''You are '', Sub ''deceased_name'', Lit ''.''] of
           Inl e \<Rightarrow> (Inl e, w1)
         | Inr system_prompt \<Rightarrow> (Inr (map (entry_of system_prompt) rows), w1))"

subsection \<open>A first start and a working environment\<close>

definition first_start :: world where
  "first_start =
     \<lparr>config_file = None, config_writes = 0, files = (\<lambda>_. None), collection = [],
      next_uuid = 0, turns = [], last_rowid = 0, clock = 0, engine_calls = 0\<rparr>"

definition working_env :: env where
  "working_env =
     \<lparr>distance = (\<lambda>q d. length d), search_fault = None, get_fault = None,
      delete_fault = None, add_fault = None, insert_fault = None,
      ollama_generate = (\<lambda>prompt images. Inr ''I remember.''),
      ollama_stream = (\<lambda>prompt. Inr ([''Hel'', ''lo''], None)),
      voice_engine = Some (\<lambda>text sample. Inr [0, 1]),
      wav_bytes = (\<lambda>wav. Inr ''RIFF''),
      md5_hexdigest = (\<lambda>text. ''5d41402a''),
      split_text = (\<lambda>text. Inr [text]),
      csv_rows = (\<lambda>b. Inr [[(''text_chunk'', Some ''A''), (''year'', Some ''1990'')],
                             [(''text'', Some ''B'')],
                             [(''other'', Some ''x'')]]),
      pdf_pages = (\<lambda>b. Inr [b]),
      utf8_decode = (\<lambda>b. Inr b)\<rparr>"

definition old_config :: world where
  "old_config = first_start\<lparr>config_file := Some [(''deceased_name'', ''Ada'')]\<rparr>"

definition migrated :: persona where
  "migrated =
     [(''deceased_name'', ''Ada''),
      (''user_name'', ''User''),
      (''user_nickname'', ''User''),
      (''relationship'', ''Friend''),
      (''date_of_death'', ''2023''),
      (''personality_traits'', ''Kind, wise.''),
      (''philosophy'', ''Stoicism''),
      (''achievements'', []),
      (''dimension'', ''heaven'')]"

definition stocked :: world where
  "stocked =
     first_start\<lparr>collection :=
        [\<lparr>item_id = 0, document = ''passage: C'',
          metadata = [(''source'', Some ''upload''), (''type'', Some ''fact''),
                      (''year'', Some ''Unknown''), (''raw_text'', Some ''C'')]\<rparr>,
         \<lparr>item_id = 1, document = ''passage: P'',
          metadata = [(''source'', Some ''upload''), (''type'', Some ''philosophy'')]\<rparr>],
        next_uuid := 2,
        files := (\<lambda>_. None)(''temp_facts.csv'' \<mapsto> ''text_chunk,year'',
                               ''temp_notes.txt'' \<mapsto> ''   '')\<rparr>"

definition unusable_rows :: "row list" where
  "unusable_rows = [[(''other'', Some ''x'')], [(''text'', Some [])], [(''text_chunk'', None)]]"

definition no_engine :: env where
  "no_engine = working_env\<lparr>voice_engine := None\<rparr>"

definition after_hello :: world where
  "after_hello =
     first_start\<lparr>engine_calls := 1,
                 files := (\<lambda>_. None)(''./voice_cache/5d41402a.wav'' \<mapsto> ''RIFF'')\<rparr>"



definition persona_a :: persona where
  "persona_a = [(''deceased_name'', ''Ada''), (''relationship'', ''Mother'')]"

definition persona_b :: persona where
  "persona_b = [(''relationship'', ''Friend''), (''deceased_name'', ''Ada''),
                (''philosophy'', ''Stoicism'')]"

definition two_turns :: "turn list" where
  "two_turns =
     [\<lparr>turn_id = 1, timestamp = 5, user_msg = ''[Image] who is this?'',
       bot_res = ''I remember.'', lat = 0, lon = 0, modality = ''image''\<rparr>,
      \<lparr>turn_id = 2, timestamp = 3, user_msg = ''hi'', bot_res = ''Hello'',
       lat = 0, lon = 0, modality = ''text''\<rparr>]"

definition history_a :: world where
  "history_a = first_start\<lparr>config_file := Some persona_a, turns := two_turns, last_rowid := 2\<rparr>"

definition history_b :: world where
  "history_b = first_start\<lparr>config_file := Some persona_b, turns := two_turns, last_rowid := 2\<rparr>"

text \<open>
  For the statements about text turns: the fragments of a stream, each with the time of
  its emission when the first is emitted at time \<open>t\<close>, and the row a text turn inserts
  after \<open>n\<close> emissions.
\<close>

fun stamps :: "nat \<Rightarrow> string list \<Rightarrow> (nat \<times> string) list" where
  "stamps t [] = []"
| "stamps t (c # cs) = (t, c) # stamps (Suc t) cs"

definition text_row :: "string \<Rightarrow> real \<Rightarrow> real \<Rightarrow> string \<Rightarrow> world \<Rightarrow> nat \<Rightarrow> turn" where
  "text_row message la lo response w n =
     \<lparr>turn_id = last_rowid w + 1, timestamp = clock w + n, user_msg = message,
      bot_res = response, lat = la, lon = lo, modality = ''text''\<rparr>"

definition after_hi :: world where
  "after_hi =
     first_start\<lparr>config_file := Some default_persona, config_writes := 1, clock := 3,
                 last_rowid := 1,
                 turns := [\<lparr>turn_id = 1, timestamp = 2, user_msg = ''hi'',
                            bot_res = ''Hello'', lat = 34, lon = - 118, modality = ''text''\<rparr>]\<rparr>"

text \<open>
  The invariant of the collection: ids are unique and below the next fresh one.
\<close>

definition store_ok :: "world \<Rightarrow> bool" where
  "store_ok w = (distinct (map item_id (collection w))
                 \<and> (\<forall>i \<in> set (collection w). item_id i < next_uuid w))"

text \<open>
  Replace semantics, in the words of the spec: from \<open>w\<close> to \<open>w'\<close> every item that had
  type \<open>t\<close> is gone, the items of the other types are as they were, and the \<open>n\<close> items
  of type \<open>t\<close> now stored are those inserted.
\<close>

definition replaced :: "string \<Rightarrow> nat \<Rightarrow> world \<Rightarrow> world \<Rightarrow> bool" where
  "replaced t n w w' =
     ((\<forall>i \<in> set (collection w). has_type t i \<longrightarrow> i \<notin> set (collection w'))
      \<and> filter (\<lambda>i. \<not> has_type t i) (collection w')
          = filter (\<lambda>i. \<not> has_type t i) (collection w)
      \<and> length (filter (has_type t) (collection w')) = n
      \<and> (\<exists>new. collection w' = filter (\<lambda>i. \<not> has_type t i) (collection w) @ new
                 \<and> length new = n))"

definition flaky_store :: env where
  "flaky_store = working_env\<lparr>get_fault := Some (Raised ''timeout'')\<rparr>"

definition example_rows :: "row list" where
  "example_rows = [[(''text_chunk'', Some ''A''), (''year'', Some ''1990'')],
                   [(''text'', Some ''B'')],
                   [(''other'', Some ''x'')]]"

definition library :: world where
  "library = stocked\<lparr>files := (files stocked)(''temp_book.txt'' \<mapsto> ''Be kind.'')\<rparr>"

section \<open>Properties\<close>

subsection \<open>Persona migration\<close>

lemma backfill_flag:
  "snd (backfill kvs data b) = (b \<or> (\<exists>k \<in> fst ` set kvs. map_of data k = None))"
proof (induction kvs arbitrary: data b)
  case Nil
  then show ?case by simp
next
  case (Cons kv kvs)
  obtain k v where kv: "kv = (k, v)" by (cases kv)
  show ?case
  proof (cases "map_of data k = None")
    case True
    then show ?thesis using Cons.IH [of "AList.update k v data" True] kv by simp
  next
    case False
    then show ?thesis using Cons.IH [of data b] kv by auto
  qed
qed

lemma backfill_lookup:
  "map_of (fst (backfill kvs data b)) k =
     (case map_of data k of Some v \<Rightarrow> Some v | None \<Rightarrow> map_of kvs k)"
proof (induction kvs arbitrary: data b)
  case Nil
  then show ?case by (simp split: option.splits)
next
  case (Cons kv kvs)
  obtain k' v' where kv: "kv = (k', v')" by (cases kv)
  show ?case
  proof (cases "map_of data k' = None")
    case True
    then show ?thesis
      using Cons.IH [of "AList.update k' v' data" True] kv
      by (auto simp: update_conv' split: option.splits)
  next
    case False
    then show ?thesis
      using Cons.IH [of data b] kv by (auto split: option.splits)
  qed
qed

lemma backfill_complete:
  "\<forall>k \<in> fst ` set kvs. map_of data k \<noteq> None \<Longrightarrow> backfill kvs data b = (data, b)"
  by (induction kvs arbitrary: data b) auto

lemma backfill_keys:
  assumes "k \<in> fst ` set kvs"
  shows "map_of (fst (backfill kvs data b)) k \<noteq> None"
proof -
  from assms have "map_of kvs k \<noteq> None" by (simp add: map_of_eq_None_iff)
  then show ?thesis by (auto simp: backfill_lookup split: option.splits)
qed

text \<open>
  C8. Loading a persona file that lacks some recognized keys fills each of them in with
  its default, leaves the keys it had as they were, and writes the result to the file
  before returning; after any load all recognized keys are present and the file holds
  the mapping returned; a second load returns the same mapping and leaves the state,
  the count of writes to the file included, as it was.
\<close>

theorem load_persona_config_idempotent_migration:
  assumes "load_persona_config w = (data, w')"
  shows "(\<forall>k \<in> fst ` set defaults. map_of data k \<noteq> None)
       \<and> config_file w' = Some data
       \<and> (\<forall>d. config_file w = Some d \<longrightarrow>
            (\<forall>k. map_of data k =
               (case map_of d k of Some v \<Rightarrow> Some v | None \<Rightarrow> map_of defaults k))
          \<and> ((\<exists>k \<in> fst ` set defaults. map_of d k = None) \<longrightarrow>
               config_writes w' = config_writes w + 1))
       \<and> load_persona_config w' = (data, w')"
proof -
  define data0 where "data0 = (case config_file w of None \<Rightarrow> default_persona | Some d \<Rightarrow> d)"
  define w1 where "w1 = (case config_file w of
      None \<Rightarrow> w\<lparr>config_file := Some default_persona, config_writes := config_writes w + 1\<rparr>
    | Some _ \<Rightarrow> w)"
  obtain dat ns where bf: "backfill defaults data0 False = (dat, ns)"
    by (cases "backfill defaults data0 False")
  have res: "data = dat" "w' = (if ns then save_persona_config dat w1 else w1)"
    using assms bf by (auto simp add: load_persona_config_def data0_def w1_def Let_def)
  have dat: "dat = fst (backfill defaults data0 False)" using bf by simp
  have ns: "ns = (\<exists>k \<in> fst ` set defaults. map_of data0 k = None)"
    using backfill_flag [of defaults data0 False] bf by simp
  have keys: "\<forall>k \<in> fst ` set defaults. map_of data k \<noteq> None"
    using backfill_keys [of _ defaults data0 False] res(1) dat by blast
  have w1file: "config_file w1 = Some data0"
    by (simp add: w1_def data0_def split: option.splits)
  have stored: "config_file w' = Some data"
  proof (cases ns)
    case True
    then show ?thesis using res by (simp add: save_persona_config_def)
  next
    case False
    then have "backfill defaults data0 False = (data0, False)"
      using ns backfill_complete [of defaults data0 False] by auto
    then have "dat = data0" using bf by simp
    then show ?thesis using res False w1file by simp
  qed
  have old: "\<forall>d. config_file w = Some d \<longrightarrow>
            (\<forall>k. map_of data k =
               (case map_of d k of Some v \<Rightarrow> Some v | None \<Rightarrow> map_of defaults k))
          \<and> ((\<exists>k \<in> fst ` set defaults. map_of d k = None) \<longrightarrow>
               config_writes w' = config_writes w + 1)"
  proof (intro allI impI conjI)
    fix d k assume d: "config_file w = Some d"
    then have "data0 = d" by (simp add: data0_def)
    then show "map_of data k =
        (case map_of d k of Some v \<Rightarrow> Some v | None \<Rightarrow> map_of defaults k)"
      using backfill_lookup [of defaults data0 False k] res(1) dat by simp
  next
    fix d assume d: "config_file w = Some d"
      and miss: "\<exists>k \<in> fst ` set defaults. map_of d k = None"
    from d have "data0 = d" "w1 = w" by (simp_all add: data0_def w1_def)
    then show "config_writes w' = config_writes w + 1"
      using miss ns res by (simp add: save_persona_config_def)
  qed
  have again: "load_persona_config w' = (data, w')"
  proof -
    have "backfill defaults data False = (data, False)"
      using keys backfill_complete [of defaults data False] by auto
    then show ?thesis using stored by (simp add: load_persona_config_def)
  qed
  from keys stored old again show ?thesis by blast
qed

theorem load_persona_config_idempotent_migration_witness:
  "load_persona_config old_config
     = (migrated, old_config\<lparr>config_file := Some migrated, config_writes := 1\<rparr>)
   \<and> config_file old_config = Some [(''deceased_name'', ''Ada'')]
   \<and> (\<exists>k \<in> fst ` set defaults. map_of [(''deceased_name'', ''Ada'')] k = None)
   \<and> list_all (\<lambda>k. map_of migrated k \<noteq> None) (map fst defaults)
   \<and> load_persona_config (old_config\<lparr>config_file := Some migrated, config_writes := 1\<rparr>)
     = (migrated, old_config\<lparr>config_file := Some migrated, config_writes := 1\<rparr>)"
proof -
  have h: "load_persona_config old_config
     = (migrated, old_config\<lparr>config_file := Some migrated, config_writes := 1\<rparr>)"
    by (simp add: load_persona_config_def old_config_def first_start_def defaults_def
        migrated_def save_persona_config_def)
  have c: "config_file old_config = Some [(''deceased_name'', ''Ada'')]"
    by (simp add: old_config_def)
  have m: "\<exists>k \<in> fst ` set defaults. map_of [(''deceased_name'', ''Ada'')] k = None"
    by (simp add: defaults_def)
  note t = load_persona_config_idempotent_migration [OF h]
  from t have "\<forall>k \<in> fst ` set defaults. map_of migrated k \<noteq> None"
    by (rule conjunct1)
  then have k: "list_all (\<lambda>k. map_of migrated k \<noteq> None) (map fst defaults)"
    unfolding list_all_iff by simp
  from t have again:
    "load_persona_config (old_config\<lparr>config_file := Some migrated, config_writes := 1\<rparr>)
       = (migrated, old_config\<lparr>config_file := Some migrated, config_writes := 1\<rparr>)"
    by (elim conjE)
  show ?thesis by (intro conjI) (rule h c m k again)+
qed

subsection \<open>Ingestion\<close>

lemma strip_empty_iff: "strip s = [] \<longleftrightarrow> (\<forall>c \<in> set s. isspace c)"
proof
  assume "strip s = []"
  then have a: "\<forall>c \<in> set (dropWhile isspace s). isspace c"
    by (simp add: strip_def)
  have "dropWhile isspace s = []"
  proof (rule ccontr)
    assume n: "dropWhile isspace s \<noteq> []"
    then have "\<not> isspace (hd (dropWhile isspace s))" by (rule hd_dropWhile)
    moreover have "hd (dropWhile isspace s) \<in> set (dropWhile isspace s)" using n by simp
    ultimately show False using a by blast
  qed
  then show "\<forall>c \<in> set s. isspace c" by simp
next
  assume "\<forall>c \<in> set s. isspace c"
  then have d: "dropWhile isspace s = []" by simp
  show "strip s = []" unfolding strip_def d by simp
qed

lemma philosophy_codes:
  "fst (process_philosophy_ingestion env fp pdf w) = - 2
     \<longleftrightarrow> (\<exists>t. extract_text env fp pdf w = Inr t \<and> strip t = [])"
  by (auto simp: process_philosophy_ingestion_def Let_def split: sum.splits if_splits)

lemma read_rows_fst:
  "fst (read_rows rs ds ms) =
     ds @ map (\<lambda>r. ''passage: '' @ (case row_text r of Some t \<Rightarrow> t | None \<Rightarrow> [])) (filter usable rs)"
  by (induction rs arbitrary: ds ms)
     (auto simp: usable_def truthy_def Let_def split: option.splits)

lemma read_rows_length:
  "length (snd (read_rows rs ds ms)) = length ms + length (filter usable rs)"
  by (induction rs arbitrary: ds ms)
     (auto simp: usable_def truthy_def Let_def split: option.splits)

lemma read_rows_type:
  "set (snd (read_rows rs ds ms)) \<subseteq> set ms \<union> {m. map_of m ''type'' = Some (Some ''fact'')}"
proof (induction rs arbitrary: ds ms)
  case Nil
  then show ?case by simp
next
  case (Cons r rs)
  show ?case
  proof (cases "usable r")
    case True
    then obtain t where t: "row_text r = Some t" "t \<noteq> []"
      by (auto simp: usable_def truthy_def split: option.splits)
    let ?m = "[(''source'', Some ''upload''), (''type'', Some ''fact''),
               (''year'', row_get_default r ''year'' ''Unknown''), (''raw_text'', Some t)]"
    have "set (snd (read_rows rs (ds @ [''passage: '' @ t]) (ms @ [?m])))
            \<subseteq> set (ms @ [?m]) \<union> {m. map_of m ''type'' = Some (Some ''fact'')}"
      by (rule Cons.IH)
    then show ?thesis using t by (auto simp: Let_def)
  next
    case False
    then show ?thesis using Cons.IH [of ds ms]
      by (auto simp: usable_def truthy_def Let_def split: option.splits)
  qed
qed



text \<open>
  C7, as the claim states it, fails in its last part: not every exception gives the code
  \<open>-1\<close>. The lookup and the deletion of the old items are inside a \<^verbatim>\<open>try\<close> whose
  \<^verbatim>\<open>except: pass\<close> swallows what they raise; when the lookup raises, the ingestion
  goes on, inserts the chunk and returns the count 1.
\<close>

theorem philosophy_lookup_exception_gives_count:
  "get_fault flaky_store = Some (Raised ''timeout'')
   \<and> fst (process_philosophy_ingestion flaky_store ''temp_book.txt'' False library) = 1
   \<and> fst (process_philosophy_ingestion flaky_store ''temp_book.txt'' False library) \<noteq> - 1
   \<and> map document
        (collection (snd (process_philosophy_ingestion flaky_store ''temp_book.txt'' False library)))
       = [''passage: C'', ''passage: P'', ''passage: Be kind.'']"
  by (simp add: process_philosophy_ingestion_def flaky_store_def working_env_def library_def
      stocked_def first_start_def extract_text_def open_read_def strip_def isspace_def
      clear_existing_def collection_get_def add_texts_def Let_def)

text \<open>
  C7, amended. A philosophy ingestion whose extracted text is empty or all white space
  returns the code \<open>-2\<close> and leaves the state as it was, and \<open>-2\<close> is returned exactly
  when the test \<^verbatim>\<open>not full_text.strip()\<close> holds of an extracted text. The other
  results are apart from it: an exception of the extraction, of the splitter or of the
  insertion gives \<open>-1\<close>; a text that splits into no chunk gives \<open>0\<close>; and when the
  insertion does not raise the number of chunks is returned, whether or not the lookup
  or the deletion of the old items raised.
\<close>

theorem philosophy_empty_document_code:
  assumes "extract_text env file_path is_pdf w = Inr full_text"
    and "\<forall>c \<in> set full_text. isspace c"
  shows "process_philosophy_ingestion env file_path is_pdf w = (- 2, w)
       \<and> (\<forall>env' path' pdf' w'.
            (fst (process_philosophy_ingestion env' path' pdf' w') = - 2
               \<longleftrightarrow> (\<exists>t. extract_text env' path' pdf' w' = Inr t \<and> strip t = []))
          \<and> (\<forall>e. extract_text env' path' pdf' w' = Inl e
                 \<longrightarrow> process_philosophy_ingestion env' path' pdf' w' = (- 1, w'))
          \<and> (\<forall>t e. extract_text env' path' pdf' w' = Inr t \<and> strip t \<noteq> []
                   \<and> split_text env' t = Inl e
                 \<longrightarrow> process_philosophy_ingestion env' path' pdf' w' = (- 1, w'))
          \<and> (\<forall>t. extract_text env' path' pdf' w' = Inr t \<and> strip t \<noteq> []
                   \<and> split_text env' t = Inr []
                 \<longrightarrow> process_philosophy_ingestion env' path' pdf' w' = (0, w'))
          \<and> (\<forall>t chunks e. extract_text env' path' pdf' w' = Inr t \<and> strip t \<noteq> []
                   \<and> split_text env' t = Inr chunks \<and> chunks \<noteq> []
                   \<and> add_fault env' = Some e
                 \<longrightarrow> fst (process_philosophy_ingestion env' path' pdf' w') = - 1)
          \<and> (\<forall>t chunks. extract_text env' path' pdf' w' = Inr t \<and> strip t \<noteq> []
                   \<and> split_text env' t = Inr chunks \<and> chunks \<noteq> []
                   \<and> add_fault env' = None
                 \<longrightarrow> fst (process_philosophy_ingestion env' path' pdf' w')
                       = int (length chunks)))"
proof -
  have "strip full_text = []" using assms(2) by (simp add: strip_empty_iff)
  then have blank: "process_philosophy_ingestion env file_path is_pdf w = (- 2, w)"
    using assms(1) by (simp add: process_philosophy_ingestion_def)
  have only: "fst (process_philosophy_ingestion env' path' pdf' w') = - 2
       \<longleftrightarrow> (\<exists>t. extract_text env' path' pdf' w' = Inr t \<and> strip t = [])"
    for env' path' pdf' w'
    by (rule philosophy_codes)
  have ex: "extract_text env' path' pdf' w' = Inl e
       \<Longrightarrow> process_philosophy_ingestion env' path' pdf' w' = (- 1, w')"
    for env' path' pdf' w' e
    by (simp add: process_philosophy_ingestion_def)
  have sp: "extract_text env' path' pdf' w' = Inr t \<and> strip t \<noteq> []
                   \<and> split_text env' t = Inl e
       \<Longrightarrow> process_philosophy_ingestion env' path' pdf' w' = (- 1, w')"
    for env' path' pdf' w' t e
    by (simp add: process_philosophy_ingestion_def)
  have none: "extract_text env' path' pdf' w' = Inr t \<and> strip t \<noteq> []
                   \<and> split_text env' t = Inr []
       \<Longrightarrow> process_philosophy_ingestion env' path' pdf' w' = (0, w')"
    for env' path' pdf' w' t
    by (simp add: process_philosophy_ingestion_def)
  have ins: "extract_text env' path' pdf' w' = Inr t \<and> strip t \<noteq> []
                   \<and> split_text env' t = Inr chunks \<and> chunks \<noteq> []
                   \<and> add_fault env' = Some e
       \<Longrightarrow> fst (process_philosophy_ingestion env' path' pdf' w') = - 1"
    for env' path' pdf' w' t chunks e
    by (simp add: process_philosophy_ingestion_def add_texts_def Let_def)
  have cnt: "extract_text env' path' pdf' w' = Inr t \<and> strip t \<noteq> []
                   \<and> split_text env' t = Inr chunks \<and> chunks \<noteq> []
                   \<and> add_fault env' = None
       \<Longrightarrow> fst (process_philosophy_ingestion env' path' pdf' w') = int (length chunks)"
    for env' path' pdf' w' t chunks
    by (simp add: process_philosophy_ingestion_def add_texts_def Let_def)
  show ?thesis
    apply (rule conjI [OF blank])
    apply (intro allI conjI impI)
         apply (rule only)
        apply (erule ex)
       apply (erule sp)
      apply (erule none)
     apply (erule ins)
    apply (erule cnt)
    done
qed

theorem philosophy_empty_document_code_witness:
  "extract_text working_env ''temp_notes.txt'' False stocked = Inr ''   ''
   \<and> list_all isspace ''   ''
   \<and> process_philosophy_ingestion working_env ''temp_notes.txt'' False stocked = (- 2, stocked)"
proof -
  have e: "extract_text working_env ''temp_notes.txt'' False stocked = Inr ''   ''"
    by (simp add: extract_text_def open_read_def stocked_def working_env_def first_start_def)
  have s: "\<forall>c \<in> set ''   ''. isspace c" by (simp add: isspace_def)
  have l: "list_all isspace ''   ''" by (simp add: isspace_def)
  from philosophy_empty_document_code [OF e s]
  have p: "process_philosophy_ingestion working_env ''temp_notes.txt'' False stocked = (- 2, stocked)"
    by (rule conjunct1)
  show ?thesis by (intro conjI) (rule e l p)+
qed

text \<open>
  C10. A facts ingestion whose rows hold no usable text returns \<open>0\<close> and leaves the
  whole state, the stored items of both partitions included, as it was: nothing is
  looked up, deleted or inserted.
\<close>

theorem csv_without_usable_text_changes_nothing:
  assumes "open_read w file_path = Inr b" and "csv_rows env b = Inr rows"
    and "\<forall>r \<in> set rows. \<not> usable r"
  shows "process_csv_ingestion env file_path w = (0, w)"
proof -
  have "filter usable rows = []" using assms(3) by (simp add: filter_empty_conv)
  then have "fst (read_rows rows [] []) = []" by (simp add: read_rows_fst)
  then show ?thesis using assms(1,2)
    by (simp add: process_csv_ingestion_def split_beta)
qed

theorem csv_without_usable_text_changes_nothing_witness:
  "open_read stocked ''temp_facts.csv'' = Inr ''text_chunk,year''
   \<and> list_all (\<lambda>r. \<not> usable r) unusable_rows
   \<and> process_csv_ingestion (working_env\<lparr>csv_rows := (\<lambda>b. Inr unusable_rows)\<rparr>)
        ''temp_facts.csv'' stocked = (0, stocked)
   \<and> length (collection stocked) = 2"
proof -
  have o: "open_read stocked ''temp_facts.csv'' = Inr ''text_chunk,year''"
    by (simp add: open_read_def stocked_def first_start_def)
  have c: "csv_rows (working_env\<lparr>csv_rows := (\<lambda>b. Inr unusable_rows)\<rparr>) ''text_chunk,year''
             = Inr unusable_rows" by simp
  have l: "list_all (\<lambda>r. \<not> usable r) unusable_rows"
    by (simp add: unusable_rows_def usable_def truthy_def row_text_def py_or_def row_get_def)
  then have u: "\<forall>r \<in> set unusable_rows. \<not> usable r" by (simp add: list_all_iff)
  note p = csv_without_usable_text_changes_nothing [OF o c u]
  have n: "length (collection stocked) = 2" by (simp add: stocked_def)
  show ?thesis by (intro conjI) (rule o l p n)+
qed

subsection \<open>Voice synthesis\<close>

text \<open>
  C6, as the claim states it, fails: with the engine not loaded, a call with empty or
  blank text is answered with 503, not with 400, since the engine is tested first.
\<close>

theorem generate_voice_blank_text_without_engine:
  "list_all isspace ''   ''
   \<and> fst (generate_voice no_engine ''   '' first_start)
       = Inl (HTTPException 503 ''Voice engine not loaded.'')
   \<and> fst (generate_voice no_engine [] first_start)
       = Inl (HTTPException 503 ''Voice engine not loaded.'')
   \<and> fst (generate_voice no_engine [] first_start)
       \<noteq> Inl (HTTPException 400 ''Text parameter cannot be empty.'')"
  by (simp add: generate_voice_def no_engine_def working_env_def isspace_def)

text \<open>
  C6, amended. When the engine is not loaded every call fails with 503, whatever the
  text; when it is loaded, a call with empty or all-white-space text fails with 400. In
  both cases the state is unchanged, so the engine is not invoked.
\<close>

theorem generate_voice_rejections:
  "(voice_engine env = None \<longrightarrow>
      generate_voice env text w = (Inl (HTTPException 503 ''Voice engine not loaded.''), w))
   \<and> (voice_engine env \<noteq> None \<and> (\<forall>c \<in> set text. isspace c) \<longrightarrow>
      generate_voice env text w
        = (Inl (HTTPException 400 ''Text parameter cannot be empty.''), w))"
  by (auto simp: generate_voice_def strip_empty_iff split: option.splits)

theorem generate_voice_rejections_witness:
  "voice_engine no_engine = None
   \<and> generate_voice no_engine ''hello'' first_start
       = (Inl (HTTPException 503 ''Voice engine not loaded.''), first_start)
   \<and> voice_engine working_env \<noteq> None \<and> list_all isspace ''   ''
   \<and> generate_voice working_env ''   '' first_start
       = (Inl (HTTPException 400 ''Text parameter cannot be empty.''), first_start)
   \<and> generate_voice working_env [] first_start
       = (Inl (HTTPException 400 ''Text parameter cannot be empty.''), first_start)"
proof -
  have a: "voice_engine no_engine = None" by (simp add: no_engine_def)
  have b: "voice_engine working_env \<noteq> None" by (simp add: working_env_def)
  have l: "list_all isspace ''   ''" by (simp add: isspace_def)
  then have s: "\<forall>c \<in> set ''   ''. isspace c" by (simp add: list_all_iff)
  have e: "\<forall>c \<in> set ([] :: string). isspace c" by simp
  have r1: "generate_voice no_engine ''hello'' first_start
       = (Inl (HTTPException 503 ''Voice engine not loaded.''), first_start)"
    using generate_voice_rejections [of no_engine "''hello''" first_start] a by blast
  have r2: "generate_voice working_env ''   '' first_start
       = (Inl (HTTPException 400 ''Text parameter cannot be empty.''), first_start)"
    using generate_voice_rejections [of working_env "''   ''" first_start] b s by blast
  have r3: "generate_voice working_env [] first_start
       = (Inl (HTTPException 400 ''Text parameter cannot be empty.''), first_start)"
    using generate_voice_rejections [of working_env "[]" first_start] b e by blast
  show ?thesis by (intro conjI) (rule a b l r1 r2 r3)+
qed

text \<open>
  C3. The cache path is computed from the text alone. After a call that returned audio
  for a text, the file at the cache path of that text holds exactly that audio, and a
  second call with the same text returns the same bytes and leaves the state, the
  count of engine calls included, as it was. In any state, a file at the cache path
  is returned as it is.
\<close>

theorem generate_voice_cache_hit:
  assumes "generate_voice env text w = (Inr audio, w1)"
  shows "files w1 (get_voice_cache_path env text) = Some audio
       \<and> generate_voice env text w1 = (Inr audio, w1)
       \<and> engine_calls (snd (generate_voice env text w1)) = engine_calls w1
       \<and> (\<forall>w2 cached. files w2 (get_voice_cache_path env text) = Some cached \<longrightarrow>
            generate_voice env text w2 = (Inr cached, w2))"
proof -
  from assms obtain engine where en: "voice_engine env = Some engine"
    by (auto simp: generate_voice_def split: option.splits)
  from assms en have ok: "\<not> (text = [] \<or> strip text = [])"
    by (auto simp: generate_voice_def split: if_splits)
  have hit: "generate_voice env text w2 = (Inr cached, w2)"
    if "files w2 (get_voice_cache_path env text) = Some cached" for w2 cached
    using that en ok by (simp add: generate_voice_def)
  have stored: "files w1 (get_voice_cache_path env text) = Some audio"
    using assms en ok
    by (auto simp: generate_voice_def Let_def split: option.splits sum.splits if_splits)
  from stored hit show ?thesis by simp
qed

theorem generate_voice_cache_hit_witness:
  "generate_voice working_env ''hello'' first_start = (Inr ''RIFF'', after_hello)
   \<and> engine_calls first_start = 0 \<and> engine_calls after_hello = 1
   \<and> files after_hello (get_voice_cache_path working_env ''hello'') = Some ''RIFF''
   \<and> generate_voice working_env ''hello'' after_hello = (Inr ''RIFF'', after_hello)"
proof -
  have h: "generate_voice working_env ''hello'' first_start = (Inr ''RIFF'', after_hello)"
    by (simp add: generate_voice_def working_env_def first_start_def after_hello_def
        get_voice_cache_path_def VOICE_CACHE_PATH_def SPEAKER_WAV_def strip_def isspace_def)
  have c0: "engine_calls first_start = 0" by (simp add: first_start_def)
  have c1: "engine_calls after_hello = 1" by (simp add: after_hello_def)
  note t = generate_voice_cache_hit [OF h]
  from t have f: "files after_hello (get_voice_cache_path working_env ''hello'') = Some ''RIFF''"
    by (rule conjunct1)
  from t have g: "generate_voice working_env ''hello'' after_hello = (Inr ''RIFF'', after_hello)"
    by (elim conjE)
  show ?thesis by (intro conjI) (rule h c0 c1 f g)+
qed

subsection \<open>Prompts and image turns\<close>



lemma load_persona_config_frame:
  "files (snd (load_persona_config w)) = files w"
  "turns (snd (load_persona_config w)) = turns w"
  "last_rowid (snd (load_persona_config w)) = last_rowid w"
  "clock (snd (load_persona_config w)) = clock w"
  "collection (snd (load_persona_config w)) = collection w"
  "engine_calls (snd (load_persona_config w)) = engine_calls w"
  by (simp_all add: load_persona_config_def split_beta Let_def save_persona_config_def
      split: option.splits)



lemma build_dynamic_system_prompt_frame:
  "files (snd (build_dynamic_system_prompt w)) = files w"
  "turns (snd (build_dynamic_system_prompt w)) = turns w"
  "last_rowid (snd (build_dynamic_system_prompt w)) = last_rowid w"
  "clock (snd (build_dynamic_system_prompt w)) = clock w"
  by (simp_all add: build_dynamic_system_prompt_def split_beta load_persona_config_frame)





subsection \<open>Export of the history\<close>

lemma defaults_deceased: "map_of defaults ''deceased_name'' = Some ''Subject Name''"
  by (simp add: defaults_def)

lemma load_fst:
  "fst (load_persona_config w) =
     fst (backfill defaults (case config_file w of None \<Rightarrow> default_persona | Some d \<Rightarrow> d) False)"
  by (simp add: load_persona_config_def split_beta Let_def)

lemma load_deceased_name:
  "map_of (fst (load_persona_config w)) ''deceased_name'' =
     (case map_of (case config_file w of None \<Rightarrow> default_persona | Some d \<Rightarrow> d) ''deceased_name'' of
        Some v \<Rightarrow> Some v | None \<Rightarrow> Some ''Subject Name'')"
  unfolding load_fst backfill_lookup defaults_deceased ..

lemma fstring_you_are:
  "map_of p ''deceased_name'' = Some name \<Longrightarrow>
     fstring p [Lit ''You are '', Sub ''deceased_name'', Lit ''.''] = Inr (''You are '' @ name @ ''.'')"
  by simp

lemma export_shape:
  assumes "map_of (fst (load_persona_config w)) ''deceased_name'' = Some name"
  shows "fst (export_research_json w) =
         Inr (map (entry_of (''You are '' @ name @ ''.'')) (sort_key timestamp (turns w)))"
  unfolding export_research_json_def Let_def split_beta fstring_you_are [OF assms]
  by simp

lemma system_messages_entry: "system_messages (entry_of sp r) = [sp]"
  by (simp add: system_messages_def entry_of_def)

lemma meta_turn_id_entry: "meta_turn_id (entry_of sp r) = turn_id r"
  by (simp add: entry_of_def)

text \<open>
  C9. The export has one entry for each row of the turns table, in the order of the time
  stamps, and every entry has one system message, made of \<^verbatim>\<open>deceased_name\<close> alone: two
  persona files that agree on \<^verbatim>\<open>deceased_name\<close> give entries with the same system
  message, and over the same table the same export, whatever their other fields are.
\<close>

theorem export_research_json_entries:
  assumes "config_file w1 = Some p1" and "config_file w2 = Some p2"
    and "map_of p1 ''deceased_name'' = map_of p2 ''deceased_name''"
  shows "\<exists>ds1 ds2.
           fst (export_research_json w1) = Inr ds1 \<and> fst (export_research_json w2) = Inr ds2
         \<and> length ds1 = length (turns w1) \<and> length ds2 = length (turns w2)
         \<and> map meta_turn_id ds1 = map turn_id (sort_key timestamp (turns w1))
         \<and> (\<forall>e1 \<in> set ds1. \<forall>e2 \<in> set ds2.
               system_messages e1 = system_messages e2 \<and> length (system_messages e1) = 1)
         \<and> (turns w1 = turns w2 \<longrightarrow> ds1 = ds2)"
proof -
  obtain n where n1: "map_of (fst (load_persona_config w1)) ''deceased_name'' = Some n"
    by (cases "map_of p1 ''deceased_name''") (simp_all add: load_deceased_name assms(1))
  then have n2: "map_of (fst (load_persona_config w2)) ''deceased_name'' = Some n"
    using assms by (simp add: load_deceased_name)
  let ?sp = "''You are '' @ n @ ''.''"
  let ?ds1 = "map (entry_of ?sp) (sort_key timestamp (turns w1))"
  let ?ds2 = "map (entry_of ?sp) (sort_key timestamp (turns w2))"
  have a: "fst (export_research_json w1) = Inr ?ds1" by (rule export_shape [OF n1])
  have b: "fst (export_research_json w2) = Inr ?ds2" by (rule export_shape [OF n2])
  have c: "length ?ds1 = length (turns w1)" "length ?ds2 = length (turns w2)" by simp_all
  have d: "map meta_turn_id ?ds1 = map turn_id (sort_key timestamp (turns w1))"
    by (simp add: comp_def meta_turn_id_entry)
  have e: "\<forall>e1 \<in> set ?ds1. \<forall>e2 \<in> set ?ds2.
               system_messages e1 = system_messages e2 \<and> length (system_messages e1) = 1"
    by (auto simp: system_messages_entry)
  have f: "turns w1 = turns w2 \<longrightarrow> ?ds1 = ?ds2" by simp
  from a b c d e f show ?thesis by blast
qed

theorem export_research_json_entries_witness:
  "config_file history_a = Some persona_a \<and> config_file history_b = Some persona_b
   \<and> map_of persona_a ''deceased_name'' = map_of persona_b ''deceased_name''
   \<and> map_of persona_a ''relationship'' \<noteq> map_of persona_b ''relationship''
   \<and> fst (export_research_json history_a) = fst (export_research_json history_b)
   \<and> fst (export_research_json history_a)
       = Inr [entry_of ''You are Ada.''
                \<lparr>turn_id = 2, timestamp = 3, user_msg = ''hi'', bot_res = ''Hello'',
                 lat = 0, lon = 0, modality = ''text''\<rparr>,
              entry_of ''You are Ada.''
                \<lparr>turn_id = 1, timestamp = 5, user_msg = ''[Image] who is this?'',
                 bot_res = ''I remember.'', lat = 0, lon = 0, modality = ''image''\<rparr>]"
proof -
  have a: "config_file history_a = Some persona_a" by (simp add: history_a_def)
  have b: "config_file history_b = Some persona_b" by (simp add: history_b_def)
  have c: "map_of persona_a ''deceased_name'' = map_of persona_b ''deceased_name''"
    by (simp add: persona_a_def persona_b_def)
  have d: "map_of persona_a ''relationship'' \<noteq> map_of persona_b ''relationship''"
    by (simp add: persona_a_def persona_b_def)
  have t: "turns history_a = turns history_b" by (simp add: history_a_def history_b_def)
  from export_research_json_entries [OF a b c] t
  have e: "fst (export_research_json history_a) = fst (export_research_json history_b)"
    by auto
  have n: "map_of (fst (load_persona_config history_a)) ''deceased_name'' = Some ''Ada''"
    by (simp add: load_deceased_name history_a_def persona_a_def)
  have f: "fst (export_research_json history_a)
       = Inr [entry_of ''You are Ada.''
                \<lparr>turn_id = 2, timestamp = 3, user_msg = ''hi'', bot_res = ''Hello'',
                 lat = 0, lon = 0, modality = ''text''\<rparr>,
              entry_of ''You are Ada.''
                \<lparr>turn_id = 1, timestamp = 5, user_msg = ''[Image] who is this?'',
                 bot_res = ''I remember.'', lat = 0, lon = 0, modality = ''image''\<rparr>]"
    unfolding export_shape [OF n] by (simp add: history_a_def two_turns_def)
  show ?thesis by (intro conjI) (rule a b c d e f)+
qed

subsection \<open>Text turns\<close>

lemma start_stream_frame:
  assumes "start_stream env message w = (r, w1)"
  shows "turns w1 = turns w" and "last_rowid w1 = last_rowid w" and "clock w1 = clock w"
  using assms
  by (auto simp: start_stream_def Let_def split_beta build_dynamic_system_prompt_frame
      split: sum.splits)

lemma map_snd_stamps: "map snd (stamps t cs) = cs"
  by (induction cs arbitrary: t) auto

lemma stamps_times: "(a, f) \<in> set (stamps t cs) \<Longrightarrow> t \<le> a \<and> a < t + length cs"
  by (induction cs arbitrary: t) fastforce+

lemma gen_next_suspended_cons:
  "gen_next env message la lo (Suspended (token # rest) ending full) w
     = (Yielded token, Suspended rest ending (full @ token), w)"
  by (simp add: gen_next_def stream_loop_def)

lemma gen_next_suspended_end:
  "insert_fault env = None \<Longrightarrow>
   gen_next env message la lo (Suspended [] None full) w
     = (StopIteration, Finished,
        w\<lparr>clock := clock w + 1,
          turns := turns w @ [text_row message la lo full w 0],
          last_rowid := last_rowid w + 1\<rparr>)"
  by (simp add: gen_next_def stream_loop_def now_def insert_turn_def text_row_def)

lemma gen_next_suspended_end_fails:
  "insert_fault env = Some e \<Longrightarrow>
   gen_next env message la lo (Suspended [] None full) w
     = (Thrown e, Finished, w\<lparr>clock := clock w + 1\<rparr>)"
  by (simp add: gen_next_def stream_loop_def now_def insert_turn_def)

lemma gen_next_suspended_raises:
  "gen_next env message la lo (Suspended [] (Some e) full) w = (Thrown e, Finished, w)"
  by (simp add: gen_next_def stream_loop_def)

lemma stream_response_yield:
  "stream_response env message la lo n (Suspended (token # rest) ending full) w =
     (case stream_response env message la lo (n - 1) (Suspended rest ending (full @ token))
             (w\<lparr>clock := Suc (clock w)\<rparr>) of
        (sent, r, w2) \<Rightarrow> (if 0 < n then (clock w, token) # sent else sent, r, w2))"
  by (subst stream_response.simps) (simp add: gen_next_suspended_cons)

lemma stamps_take:
  "(if 0 < n then (t, c) # stamps (Suc t) (take (n - 1) cs) else stamps (Suc t) (take (n - 1) cs))
     = stamps t (take n (c # cs))"
  by (cases n) simp_all

lemma stream_response_runs:
  assumes "insert_fault env = None"
  shows "stream_response env message la lo n (Suspended chunks None full) w =
     (stamps (clock w) (take n chunks), Completed,
      w\<lparr>clock := clock w + length chunks + 1,
        turns := turns w @ [text_row message la lo (full @ concat chunks) w (length chunks)],
        last_rowid := last_rowid w + 1\<rparr>)"
proof (induction chunks arbitrary: n full w)
  case Nil
  show ?case
    by (subst stream_response.simps) (simp add: gen_next_suspended_end [OF assms])
next
  case (Cons token rest)
  note ih = Cons.IH [of "n - 1" "full @ token" "w\<lparr>clock := Suc (clock w)\<rparr>"]
  show ?case unfolding stream_response_yield ih prod.case stamps_take [symmetric]
    by (simp add: text_row_def)
qed

lemma stream_response_insert_fails:
  assumes "insert_fault env = Some e"
  shows "stream_response env message la lo n (Suspended chunks None full) w =
     (stamps (clock w) (take n chunks), Failed e, w\<lparr>clock := clock w + length chunks + 1\<rparr>)"
proof (induction chunks arbitrary: n full w)
  case Nil
  show ?case
    by (subst stream_response.simps) (simp add: gen_next_suspended_end_fails [OF assms])
next
  case (Cons token rest)
  note ih = Cons.IH [of "n - 1" "full @ token" "w\<lparr>clock := Suc (clock w)\<rparr>"]
  show ?case unfolding stream_response_yield ih prod.case stamps_take [symmetric]
    by simp
qed

lemma stream_response_stream_raises:
  "stream_response env message la lo n (Suspended chunks (Some e) full) w =
     (stamps (clock w) (take n chunks), Failed e, w\<lparr>clock := clock w + length chunks\<rparr>)"
proof (induction chunks arbitrary: n full w)
  case Nil
  show ?case
    by (subst stream_response.simps) (simp add: gen_next_suspended_raises)
next
  case (Cons token rest)
  note ih = Cons.IH [of "n - 1" "full @ token" "w\<lparr>clock := Suc (clock w)\<rparr>"]
  show ?case unfolding stream_response_yield ih prod.case stamps_take [symmetric]
    by simp
qed

lemma chat_text_started:
  assumes "start_stream env message w = (Inr (chunks, ending), w1)"
  shows "chat_text env message la lo n w =
           stream_response env message la lo n (Suspended chunks ending []) w1"
  unfolding chat_text_def
  apply (subst stream_response.simps)
  apply (subst (2) stream_response.simps)
  apply (simp add: gen_next_def assms)
  done

lemma start_stream_example:
  "start_stream working_env ''hi'' first_start
     = (Inr ([''Hel'', ''lo''], None), first_start\<lparr>config_file := Some default_persona,
                                                      config_writes := 1\<rparr>)"
  by (simp add: start_stream_def similarity_search_def working_env_def Let_def split_beta
      first_start_def build_dynamic_system_prompt_def load_persona_config_def
      default_persona_def defaults_def system_prompt_template_def)

lemma insert_fault_working_env: "insert_fault working_env = None"
  by (simp add: working_env_def)


lemma chat_text_cut_example:
  "chat_text working_env ''hi'' 34 (- 118) 1 first_start
     = ([(0, ''Hel'')], Completed, after_hi)"
  unfolding chat_text_started [OF start_stream_example]
    stream_response_runs [OF insert_fault_working_env]
  by (simp add: first_start_def after_hi_def text_row_def)




text \<open>
  C4, as the claim states it, fails: nothing in the source cancels the generation when
  the client disconnects. A client that leaves after the first of two fragments has
  received only that one, and the turn is still written, with the whole response.
\<close>

theorem chat_text_disconnect_still_persists:
  "map snd (fst (chat_text working_env ''hi'' 34 (- 118) 1 first_start)) = [''Hel'']
   \<and> turns first_start = []
   \<and> map bot_res (turns (snd (snd (chat_text working_env ''hi'' 34 (- 118) 1 first_start))))
       = [''Hello'']"
  unfolding chat_text_cut_example by (simp add: first_start_def after_hi_def)

text \<open>
  C4, amended. When the client disconnects before the stream is exhausted, having
  received \<open>n\<close> fragments, the generation is not cancelled and runs to the end of the
  stream. No partial turn is persisted: if the stream ends without an exception and the
  insertion succeeds, one row is written, whose \<^verbatim>\<open>bot_res\<close> is the whole response,
  the concatenation of all chunks of the stream, also of those the client did not
  receive; if the stream or the insertion raises, no row is written.
\<close>

theorem chat_text_disconnect_persists_whole_response:
  assumes "start_stream env message w = (Inr (chunks, ending), w1)"
    and "n \<le> length chunks"
  shows "\<exists>sent r w'.
           chat_text env message la lo n w = (sent, r, w')
         \<and> map snd sent = take n chunks
         \<and> (case ending of
              None \<Rightarrow>
                (case insert_fault env of
                   None \<Rightarrow>
                     r = Completed
                     \<and> (\<exists>row. turns w' = turns w @ [row]
                          \<and> bot_res row = concat chunks
                          \<and> (\<forall>(t, fragment) \<in> set sent. t < timestamp row)
                          \<and> user_msg row = message \<and> lat row = la \<and> lon row = lo
                          \<and> modality row = ''text'')
                 | Some e \<Rightarrow> r = Failed e \<and> turns w' = turns w)
            | Some e \<Rightarrow> r = Failed e \<and> turns w' = turns w)"
proof -
  note fr = start_stream_frame [OF assms(1)]
  note started = chat_text_started [OF assms(1), of la lo n]
  let ?sent = "stamps (clock w1) (take n chunks)"
  have s: "map snd ?sent = take n chunks" by (rule map_snd_stamps)
  show ?thesis
  proof (cases ending)
    case (Some e)
    let ?w' = "w1\<lparr>clock := clock w1 + length chunks\<rparr>"
    have c: "chat_text env message la lo n w = (?sent, Failed e, ?w')"
      unfolding started Some by (rule stream_response_stream_raises)
    have t: "turns ?w' = turns w" by (simp add: fr)
    show ?thesis unfolding Some option.case
      apply (rule exI [of _ ?sent])
      apply (rule exI [of _ "Failed e"])
      apply (rule exI [of _ ?w'])
      apply (intro conjI)
         apply (rule c)
        apply (rule s)
       apply (rule refl)
      apply (rule t)
      done
  next
    case None
    note ending = None
    show ?thesis
    proof (cases "insert_fault env")
      case None
      let ?row = "text_row message la lo (concat chunks) w1 (length chunks)"
      let ?w' = "w1\<lparr>clock := clock w1 + length chunks + 1, turns := turns w1 @ [?row],
                    last_rowid := last_rowid w1 + 1\<rparr>"
      have c: "chat_text env message la lo n w = (?sent, Completed, ?w')"
        unfolding started ending
        using stream_response_runs [OF None, of message la lo n chunks "[]" w1] by simp
      have r1: "turns ?w' = turns w @ [?row]" by (simp add: fr)
      have r2: "bot_res ?row = concat chunks" by (simp add: text_row_def)
      have r3: "\<forall>(t, fragment) \<in> set ?sent. t < timestamp ?row"
      proof (clarify)
        fix t fragment assume "(t, fragment) \<in> set ?sent"
        from stamps_times [OF this] assms(2) show "t < timestamp ?row"
          by (simp add: text_row_def)
      qed
      have r4: "user_msg ?row = message \<and> lat ?row = la \<and> lon ?row = lo
                       \<and> modality ?row = ''text''" by (simp add: text_row_def)
      have row: "\<exists>row. turns ?w' = turns w @ [row]
                       \<and> bot_res row = concat chunks
                       \<and> (\<forall>(t, fragment) \<in> set ?sent. t < timestamp row)
                       \<and> user_msg row = message \<and> lat row = la \<and> lon row = lo
                       \<and> modality row = ''text''"
        by (rule exI [of _ ?row]) (intro conjI r1 r2 r3 r4)
      show ?thesis unfolding ending None option.case
        apply (rule exI [of _ ?sent])
        apply (rule exI [of _ Completed])
        apply (rule exI [of _ ?w'])
        apply (intro conjI)
           apply (rule c)
          apply (rule s)
         apply (rule refl)
        apply (rule row)
        done
    next
      case (Some e)
      let ?w' = "w1\<lparr>clock := clock w1 + length chunks + 1\<rparr>"
      have c: "chat_text env message la lo n w = (?sent, Failed e, ?w')"
        unfolding started ending
        using stream_response_insert_fails [OF Some, of message la lo n chunks "[]" w1] by simp
      have t: "turns ?w' = turns w" by (simp add: fr)
      show ?thesis unfolding ending Some option.case
        apply (rule exI [of _ ?sent])
        apply (rule exI [of _ "Failed e"])
        apply (rule exI [of _ ?w'])
        apply (intro conjI)
           apply (rule c)
          apply (rule s)
         apply (rule refl)
        apply (rule t)
        done
    qed
  qed
qed

theorem chat_text_disconnect_persists_whole_response_witness:
  "start_stream working_env ''hi'' first_start
     = (Inr ([''Hel'', ''lo''], None), first_start\<lparr>config_file := Some default_persona,
                                                      config_writes := 1\<rparr>)
   \<and> (1 :: nat) \<le> length [''Hel'', ''lo'']
   \<and> insert_fault working_env = None
   \<and> chat_text working_env ''hi'' 34 (- 118) 1 first_start
       = ([(0, ''Hel'')], Completed, after_hi)
   \<and> map bot_res (turns after_hi) = [concat [''Hel'', ''lo'']]"
proof -
  note a = start_stream_example
  have l: "(1 :: nat) \<le> length [''Hel'', ''lo'']" by simp
  note f = insert_fault_working_env
  note c = chat_text_cut_example
  from chat_text_disconnect_persists_whole_response [OF a l, of 34 "- 118"]
  obtain sent r w' where
    run: "chat_text working_env ''hi'' 34 (- 118) 1 first_start = (sent, r, w')"
    and rest: "case (None :: exn option) of
              None \<Rightarrow>
                (case insert_fault working_env of
                   None \<Rightarrow>
                     r = Completed
                     \<and> (\<exists>row. turns w' = turns first_start @ [row]
                          \<and> bot_res row = concat [''Hel'', ''lo'']
                          \<and> (\<forall>(t, fragment) \<in> set sent. t < timestamp row)
                          \<and> user_msg row = ''hi'' \<and> lat row = 34 \<and> lon row = - 118
                          \<and> modality row = ''text'')
                 | Some e \<Rightarrow> r = Failed e \<and> turns w' = turns first_start)
            | Some e \<Rightarrow> r = Failed e \<and> turns w' = turns first_start"
    by (elim exE conjE)
  from run c have eq: "w' = after_hi" by simp
  from rest obtain row where
    row: "turns w' = turns first_start @ [row]" "bot_res row = concat [''Hel'', ''lo'']"
    unfolding f option.case by (elim exE conjE)
  have b: "map bot_res (turns after_hi) = [concat [''Hel'', ''lo'']]"
    using row unfolding eq by (simp add: first_start_def)
  show ?thesis by (intro conjI) (rule a l f c b)+
qed

subsection \<open>Replacement of a partition\<close>

lemma new_items_ids:
  "length ts = length ms \<Longrightarrow> map item_id (new_items n ts ms) = [n ..< n + length ts]"
proof (induction n ts ms rule: new_items.induct)
  case (1 n t ts m ms)
  then show ?case by (simp add: upt_conv_Cons del: upt_Suc)
qed simp_all

lemma new_items_length:
  "length ts = length ms \<Longrightarrow> length (new_items n ts ms) = length ts"
  by (induction n ts ms rule: new_items.induct) simp_all

lemma new_items_documents:
  "length ts = length ms \<Longrightarrow> map document (new_items n ts ms) = ts"
  by (induction n ts ms rule: new_items.induct) simp_all

lemma new_items_type:
  "\<forall>m \<in> set ms. map_of m ''type'' = Some (Some t) \<Longrightarrow>
     \<forall>i \<in> set (new_items n ts ms). has_type t i"
  by (induction n ts ms rule: new_items.induct) (simp_all add: has_type_def)

lemma delete_by_type:
  assumes "distinct (map item_id xs)"
  shows "filter (\<lambda>i. item_id i \<notin> set (map item_id (filter (has_type t) xs))) xs
           = filter (\<lambda>i. \<not> has_type t i) xs"
proof (rule filter_cong [OF refl])
  fix i assume i: "i \<in> set xs"
  have inj: "inj_on item_id (set xs)" using assms by (simp add: distinct_map)
  show "(item_id i \<notin> set (map item_id (filter (has_type t) xs))) = (\<not> has_type t i)"
  proof
    assume "item_id i \<notin> set (map item_id (filter (has_type t) xs))"
    then show "\<not> has_type t i" using i by auto
  next
    assume n: "\<not> has_type t i"
    show "item_id i \<notin> set (map item_id (filter (has_type t) xs))"
    proof
      assume "item_id i \<in> set (map item_id (filter (has_type t) xs))"
      then obtain j where j: "j \<in> set xs" "has_type t j" "item_id j = item_id i" by auto
      with inj i have "j = i" by (auto dest: inj_onD)
      with j n show False by simp
    qed
  qed
qed

lemma clear_existing_collection:
  assumes "get_fault env = None" and "delete_fault env = None"
    and "distinct (map item_id (collection w))"
  shows "clear_existing env t w
           = w\<lparr>collection := filter (\<lambda>i. \<not> has_type t i) (collection w)\<rparr>"
proof (cases "filter (has_type t) (collection w) = []")
  case True
  then have "filter (\<lambda>i. \<not> has_type t i) (collection w) = collection w"
    by (simp add: filter_empty_conv filter_id_conv)
  then show ?thesis using True assms
    by (simp add: clear_existing_def collection_get_def)
next
  case False
  then show ?thesis using assms delete_by_type [OF assms(3), of t]
    by (simp add: clear_existing_def collection_get_def collection_delete_def)
qed

lemma replace_partition:
  assumes "get_fault env = None" and "delete_fault env = None" and "add_fault env = None"
    and ok: "store_ok w"
    and len: "length docs = length metas"
    and ty: "\<forall>m \<in> set metas. map_of m ''type'' = Some (Some t)"
  shows "\<exists>w'. add_texts env docs metas (clear_existing env t w) = Inr w'
              \<and> replaced t (length docs) w w' \<and> store_ok w'"
proof -
  let ?old = "filter (\<lambda>i. \<not> has_type t i) (collection w)"
  let ?new = "new_items (next_uuid w) docs metas"
  let ?w' = "w\<lparr>collection := ?old @ ?new, next_uuid := next_uuid w + length docs\<rparr>"
  have d: "distinct (map item_id (collection w))" using ok by (simp add: store_ok_def)
  have lt: "\<forall>i \<in> set (collection w). item_id i < next_uuid w"
    using ok by (simp add: store_ok_def)
  have cl: "clear_existing env t w = w\<lparr>collection := ?old\<rparr>"
    by (rule clear_existing_collection [OF assms(1,2) d])
  have add: "add_texts env docs metas (clear_existing env t w) = Inr ?w'"
    unfolding cl by (simp add: add_texts_def assms(3))
  have ids: "map item_id ?new = [next_uuid w ..< next_uuid w + length docs]"
    by (rule new_items_ids [OF len])
  have newty: "\<forall>i \<in> set ?new. has_type t i" by (rule new_items_type [OF ty])
  have newlen: "length ?new = length docs" by (rule new_items_length [OF len])
  have fresh: "\<forall>i \<in> set ?new. next_uuid w \<le> item_id i"
  proof
    fix i assume "i \<in> set ?new"
    then have "item_id i \<in> set (map item_id ?new)" by simp
    then show "next_uuid w \<le> item_id i" unfolding ids by simp
  qed
  have gone: "\<forall>i \<in> set (collection w). has_type t i \<longrightarrow> i \<notin> set (?old @ ?new)"
  proof (intro ballI impI)
    fix i assume i: "i \<in> set (collection w)" and h: "has_type t i"
    have "i \<notin> set ?new" using fresh lt i by fastforce
    then show "i \<notin> set (?old @ ?new)" using h by simp
  qed
  have f1: "filter (\<lambda>i. \<not> has_type t i) ?new = []"
    using newty by (simp add: filter_empty_conv)
  have f2: "filter (has_type t) ?new = ?new"
    using newty by (simp add: filter_id_conv)
  have f3: "filter (has_type t) ?old = []" by (simp add: filter_empty_conv)
  have other: "filter (\<lambda>i. \<not> has_type t i) (?old @ ?new) = ?old"
    using f1 by simp
  have count: "length (filter (has_type t) (?old @ ?new)) = length docs"
    using f2 f3 newlen by simp
  have rep: "replaced t (length docs) w ?w'"
    unfolding replaced_def
    using gone other count newlen by simp
  have d': "distinct (map item_id (?old @ ?new))"
  proof -
    have "distinct (map item_id ?old)" using d by (rule distinct_map_filter)
    moreover have "distinct (map item_id ?new)" unfolding ids by simp
    moreover have "set (map item_id ?old) \<inter> set (map item_id ?new) = {}"
      unfolding ids using lt by fastforce
    ultimately show ?thesis by simp
  qed
  have lt': "\<forall>i \<in> set (?old @ ?new). item_id i < next_uuid w + length docs"
  proof
    fix i assume "i \<in> set (?old @ ?new)"
    then consider "i \<in> set (collection w)" | "i \<in> set ?new" by auto
    then show "item_id i < next_uuid w + length docs"
    proof cases
      case 1
      then show ?thesis using lt by fastforce
    next
      case 2
      then have "item_id i \<in> set (map item_id ?new)" by simp
      then show ?thesis unfolding ids by simp
    qed
  qed
  have ok': "store_ok ?w'" unfolding store_ok_def using d' lt' by simp
  from add rep ok' show ?thesis by (intro exI conjI)
qed

lemma csv_replaces:
  assumes "get_fault env = None" and "delete_fault env = None" and "add_fault env = None"
    and "store_ok w"
    and "open_read w file_path = Inr b" and "csv_rows env b = Inr rows"
    and "\<exists>r \<in> set rows. usable r"
  shows "\<exists>w'. process_csv_ingestion env file_path w = (int (length (filter usable rows)), w')
            \<and> replaced ''fact'' (length (filter usable rows)) w w' \<and> store_ok w'"
proof -
  obtain docs metas where rr: "read_rows rows [] [] = (docs, metas)"
    by (cases "read_rows rows [] []")
  have ld: "length docs = length (filter usable rows)"
    using read_rows_fst [of rows "[]" "[]"] rr by simp
  have lm: "length metas = length (filter usable rows)"
    using read_rows_length [of rows "[]" "[]"] rr by simp
  have ty: "\<forall>m \<in> set metas. map_of m ''type'' = Some (Some ''fact'')"
    using read_rows_type [of rows "[]" "[]"] rr by auto
  have ne: "docs \<noteq> []" using ld assms(7) by (auto simp: filter_empty_conv)
  from replace_partition [OF assms(1-4) _ ty, of docs] ld lm
  obtain w' where add: "add_texts env docs metas (clear_existing env ''fact'' w) = Inr w'"
    and rep: "replaced ''fact'' (length docs) w w'" and ok: "store_ok w'"
    by auto
  have "process_csv_ingestion env file_path w = (int (length docs), w')"
    by (simp add: process_csv_ingestion_def assms(5,6) rr ne add)
  then show ?thesis using rep ok unfolding ld by (intro exI conjI)
qed

lemma philosophy_replaces:
  assumes "get_fault env = None" and "delete_fault env = None" and "add_fault env = None"
    and "store_ok w"
    and "extract_text env file_path is_pdf w = Inr full_text" and "strip full_text \<noteq> []"
    and "split_text env full_text = Inr chunks" and "chunks \<noteq> []"
  shows "\<exists>w'. process_philosophy_ingestion env file_path is_pdf w = (int (length chunks), w')
            \<and> replaced ''philosophy'' (length chunks) w w' \<and> store_ok w'"
proof -
  let ?docs = "map (\<lambda>c. ''passage: '' @ c) chunks"
  let ?metas = "map (\<lambda>_. [(''source'', Some ''upload''), (''type'', Some ''philosophy'')]) chunks"
  have ty: "\<forall>m \<in> set ?metas. map_of m ''type'' = Some (Some ''philosophy'')" by simp
  have len: "length ?docs = length ?metas" by simp
  from replace_partition [OF assms(1-4) len ty]
  obtain w' where add: "add_texts env ?docs ?metas (clear_existing env ''philosophy'' w) = Inr w'"
    and rep: "replaced ''philosophy'' (length ?docs) w w'" and ok: "store_ok w'"
    by auto
  have "process_philosophy_ingestion env file_path is_pdf w = (int (length chunks), w')"
    by (simp add: process_philosophy_ingestion_def assms(5-8) add Let_def)
  then show ?thesis using rep ok by (intro exI conjI) simp_all
qed

text \<open>
  C2, as the claim states it, fails: the lookup and the deletion of the old items are
  inside a \<^verbatim>\<open>try\<close> whose \<^verbatim>\<open>except: pass\<close> swallows what they raise. When the lookup
  raises, the rows of the example are still inserted and 2 is returned, and the fact
  stored before is still in the collection and still found by a search.
\<close>

theorem csv_ingestion_keeps_old_facts_when_lookup_raises:
  "fst (process_csv_ingestion flaky_store ''temp_facts.csv'' stocked) = 2
   \<and> map document (collection (snd (process_csv_ingestion flaky_store ''temp_facts.csv'' stocked)))
       = [''passage: C'', ''passage: P'', ''passage: A'', ''passage: B'']
   \<and> filter (has_type ''fact'') (collection stocked)
       = filter (has_type ''fact'')
           (take 2 (collection (snd (process_csv_ingestion flaky_store ''temp_facts.csv'' stocked))))
   \<and> length (filter (has_type ''fact'') (collection stocked)) = 1
   \<and> similarity_search flaky_store ''C'' 3
        (snd (process_csv_ingestion flaky_store ''temp_facts.csv'' stocked))
       = Inr [''passage: C'', ''passage: P'', ''passage: A'']"
  by (simp add: process_csv_ingestion_def flaky_store_def working_env_def stocked_def
      first_start_def open_read_def row_text_def py_or_def truthy_def row_get_def
      row_get_default_def clear_existing_def collection_get_def add_texts_def
      similarity_search_def has_type_def)

text \<open>
  C2, amended. When the lookup, the deletion and the insertion of the store do not raise
  (and the ids of the collection are unique), an ingestion of facts with at least one
  usable row, or of a document with at least one chunk, returns the number of items it
  inserts, and replaces the partition: no item that had the type is left, the items of
  the other types are unchanged, and the items of the type are the inserted ones.
\<close>

theorem ingestion_replaces_partition:
  assumes "get_fault env = None" and "delete_fault env = None" and "add_fault env = None"
    and "store_ok w"
  shows "(\<forall>b rows. open_read w file_path = Inr b \<and> csv_rows env b = Inr rows
              \<and> (\<exists>r \<in> set rows. usable r)
            \<longrightarrow> (\<exists>w'. process_csv_ingestion env file_path w
                          = (int (length (filter usable rows)), w')
                      \<and> replaced ''fact'' (length (filter usable rows)) w w' \<and> store_ok w'))
       \<and> (\<forall>full_text chunks.
              extract_text env file_path is_pdf w = Inr full_text \<and> strip full_text \<noteq> []
              \<and> split_text env full_text = Inr chunks \<and> chunks \<noteq> []
            \<longrightarrow> (\<exists>w'. process_philosophy_ingestion env file_path is_pdf w
                          = (int (length chunks), w')
                      \<and> replaced ''philosophy'' (length chunks) w w' \<and> store_ok w'))"
proof (rule conjI; intro allI; rule impI)
  fix b rows
  assume "open_read w file_path = Inr b \<and> csv_rows env b = Inr rows
              \<and> (\<exists>r \<in> set rows. usable r)"
  then have a: "open_read w file_path = Inr b" "csv_rows env b = Inr rows"
    "\<exists>r \<in> set rows. usable r" by simp_all
  show "\<exists>w'. process_csv_ingestion env file_path w = (int (length (filter usable rows)), w')
            \<and> replaced ''fact'' (length (filter usable rows)) w w' \<and> store_ok w'"
    by (rule csv_replaces [OF assms a])
next
  fix full_text chunks
  assume "extract_text env file_path is_pdf w = Inr full_text \<and> strip full_text \<noteq> []
              \<and> split_text env full_text = Inr chunks \<and> chunks \<noteq> []"
  then have a: "extract_text env file_path is_pdf w = Inr full_text" "strip full_text \<noteq> []"
    "split_text env full_text = Inr chunks" "chunks \<noteq> []" by simp_all
  show "\<exists>w'. process_philosophy_ingestion env file_path is_pdf w = (int (length chunks), w')
            \<and> replaced ''philosophy'' (length chunks) w w' \<and> store_ok w'"
    by (rule philosophy_replaces [OF assms a])
qed

theorem ingestion_replaces_partition_witness:
  "get_fault working_env = None \<and> delete_fault working_env = None
   \<and> add_fault working_env = None \<and> store_ok stocked
   \<and> open_read stocked ''temp_facts.csv'' = Inr ''text_chunk,year''
   \<and> csv_rows working_env ''text_chunk,year'' = Inr example_rows
   \<and> length (filter usable example_rows) = 2
   \<and> fst (process_csv_ingestion working_env ''temp_facts.csv'' stocked) = 2
   \<and> replaced ''fact'' 2 stocked
        (snd (process_csv_ingestion working_env ''temp_facts.csv'' stocked))
   \<and> map document (collection (snd (process_csv_ingestion working_env ''temp_facts.csv'' stocked)))
       = [''passage: P'', ''passage: A'', ''passage: B'']
   \<and> similarity_search working_env ''C'' 3
        (snd (process_csv_ingestion working_env ''temp_facts.csv'' stocked))
       = Inr [''passage: P'', ''passage: A'', ''passage: B'']"
proof -
  have g: "get_fault working_env = None" by (simp add: working_env_def)
  have d: "delete_fault working_env = None" by (simp add: working_env_def)
  have a: "add_fault working_env = None" by (simp add: working_env_def)
  have ok: "store_ok stocked" by (simp add: store_ok_def stocked_def first_start_def)
  have o: "open_read stocked ''temp_facts.csv'' = Inr ''text_chunk,year''"
    by (simp add: open_read_def stocked_def first_start_def)
  have c: "csv_rows working_env ''text_chunk,year'' = Inr example_rows"
    by (simp add: working_env_def example_rows_def)
  have l: "length (filter usable example_rows) = 2"
    by (simp add: example_rows_def usable_def truthy_def row_text_def py_or_def row_get_def)
  have u: "\<exists>r \<in> set example_rows. usable r"
    by (simp add: example_rows_def usable_def truthy_def row_text_def py_or_def row_get_def)
  note t = conjunct1 [OF ingestion_replaces_partition [OF g d a ok, of "''temp_facts.csv''" False]]
  from t [rule_format, OF conjI [OF o conjI [OF c u]]]
  obtain w' where
    p: "process_csv_ingestion working_env ''temp_facts.csv'' stocked
          = (int (length (filter usable example_rows)), w')"
    and r: "replaced ''fact'' (length (filter usable example_rows)) stocked w'"
    by (elim exE conjE)
  have f: "fst (process_csv_ingestion working_env ''temp_facts.csv'' stocked) = 2"
    unfolding p l by simp
  have s: "replaced ''fact'' 2 stocked
        (snd (process_csv_ingestion working_env ''temp_facts.csv'' stocked))"
    using r unfolding p l by simp
  have v: "process_csv_ingestion working_env ''temp_facts.csv'' stocked
     = (2, stocked\<lparr>collection :=
         [\<lparr>item_id = 1, document = ''passage: P'',
           metadata = [(''source'', Some ''upload''), (''type'', Some ''philosophy'')]\<rparr>,
          \<lparr>item_id = 2, document = ''passage: A'',
           metadata = [(''source'', Some ''upload''), (''type'', Some ''fact''),
                       (''year'', Some ''1990''), (''raw_text'', Some ''A'')]\<rparr>,
          \<lparr>item_id = 3, document = ''passage: B'',
           metadata = [(''source'', Some ''upload''), (''type'', Some ''fact''),
                       (''year'', Some ''Unknown''), (''raw_text'', Some ''B'')]\<rparr>],
         next_uuid := 4\<rparr>)"
    by (simp add: process_csv_ingestion_def working_env_def stocked_def
      first_start_def open_read_def row_text_def py_or_def truthy_def row_get_def
      row_get_default_def clear_existing_def collection_get_def collection_delete_def
      add_texts_def has_type_def)
  have m: "map document (collection (snd (process_csv_ingestion working_env ''temp_facts.csv''
        stocked))) = [''passage: P'', ''passage: A'', ''passage: B'']"
    unfolding v by simp
  have q: "similarity_search working_env ''C'' 3
        (snd (process_csv_ingestion working_env ''temp_facts.csv'' stocked))
       = Inr [''passage: P'', ''passage: A'', ''passage: B'']"
    unfolding v by (simp add: similarity_search_def working_env_def)
  show ?thesis by (intro conjI) (rule g d a ok o c l f s m q)+
qed

end
